theory Spec2Isabelle
  imports Main "HOL-Library.Word"
begin

section \<open>The stock table of the exchange server\<close>

text \<open>
  Modelled from the spec: the header Stock.h is not among the sources. The server uses
  three members of a Stock: \<open>name\<close>, \<open>balance\<close> and \<open>mutex\<close>. The spec gives the
  balance as an integer that is to stay non-negative; it is an \<open>int\<close> here, and that it
  stays non-negative is proved, not built into the type. A \<open>std::mutex\<close> is free
  (\<open>None\<close>) or owned by the thread that locked it. A Stock made by
  \<open>operator[]\<close> on a missing key is value-initialised.
\<close>

record Stock =
  name :: string
  balance :: int
  mutex :: "nat option"

definition Stock0 :: Stock where
  "Stock0 = \<lparr>name = [], balance = 0, mutex = None\<rparr>"

type_synonym stockMap = "string \<Rightarrow> Stock option"

text \<open>
  \<open>sm::stockMap[k]\<close> inserts a value-initialised Stock when the key is missing, and gives
  the entry at \<open>k\<close>. \<open>subscript\<close> is the entry it gives and \<open>inserted\<close> the table it
  leaves; a write through the subscript stores the changed entry, which also inserts it.
\<close>

definition subscript :: "stockMap \<Rightarrow> string \<Rightarrow> Stock" where
  "subscript m k = (case m k of None \<Rightarrow> Stock0 | Some s \<Rightarrow> s)"

definition inserted :: "stockMap \<Rightarrow> string \<Rightarrow> stockMap" where
  "inserted m k = (case m k of None \<Rightarrow> m(k \<mapsto> Stock0) | Some s \<Rightarrow> m)"

text \<open>\<open>std::to_string\<close> on an unsigned and on a signed value.\<close>

fun to_string_nat :: "nat \<Rightarrow> string" where
  "to_string_nat n =
     (if n < 10 then [''0123456789'' ! n]
      else to_string_nat (n div 10) @ [''0123456789'' ! (n mod 10)])"

declare to_string_nat.simps [simp del]

definition to_string :: "int \<Rightarrow> string" where
  "to_string i = (if i < 0 then CHR ''-'' # to_string_nat (nat (- i)) else to_string_nat (nat i))"

text \<open>
  The message of a buy or sell that went through: \<open>Stock\<close>, the name, and
  \<open>'s balance updated\<close> (the apostrophe is the character 0x27).
\<close>

definition updated :: "string \<Rightarrow> string" where
  "updated stock = ''Stock '' @ stock @ CHR 0x27 # ''s balance updated''"

section \<open>The five transactions, run without interference\<close>

text \<open>
  Each function below is the C++ function of the same name as it runs when no other
  thread touches the table during the call. A mutex locked in the call is unlocked again
  before it returns, so the \<open>mutex\<close> member is left as it was. The result is the
  message and the table after the call.
\<close>

definition reset :: "stockMap \<Rightarrow> string \<times> stockMap" where
  "reset m = (''Stocks reset'', Map.empty)"

definition create :: "string \<Rightarrow> 32 word \<Rightarrow> stockMap \<Rightarrow> string \<times> stockMap" where
  "create stock amount m =
     (if m stock = None then
        (let m1 = m(stock \<mapsto> (subscript m stock)\<lparr>name := stock\<rparr>);
             m2 = m1(stock \<mapsto> (subscript m1 stock)\<lparr>balance := uint amount\<rparr>)
         in (''Stock '' @ stock @ '' created with balance = '' @ to_string_nat (unat amount), m2))
      else (''Stock '' @ stock @ '' already exists'', m))"

text \<open>
  \<open>buy\<close> waits on the condition variable until \<open>amount <= balance\<close>. With no other
  thread to raise the balance the wait never ends: the result is \<open>None\<close> then.
\<close>

definition buy :: "string \<Rightarrow> 32 word \<Rightarrow> stockMap \<Rightarrow> (string \<times> stockMap) option" where
  "buy stock amount m =
     (if m stock \<noteq> None then
        (if uint amount \<le> balance (subscript m stock) then
           Some (updated stock,
                 m(stock \<mapsto> (subscript m stock)\<lparr>balance := balance (subscript m stock) - uint amount\<rparr>))
         else None)
      else Some (''Stock not found'', m))"

definition sell :: "string \<Rightarrow> 32 word \<Rightarrow> stockMap \<Rightarrow> string \<times> stockMap" where
  "sell stock amount m =
     (if m stock \<noteq> None then
        (updated stock,
         m(stock \<mapsto> (subscript m stock)\<lparr>balance := balance (subscript m stock) + uint amount\<rparr>))
      else (''Stock not found'', m))"

definition status :: "string \<Rightarrow> stockMap \<Rightarrow> string \<times> stockMap" where
  "status stock m =
     (if m stock \<noteq> None then
        (''Balance for stock '' @ stock @ '' = '' @ to_string (balance (subscript m stock)), m)
      else (''Stock not found'', m))"

section \<open>Reading a request\<close>

text \<open>
  \<open>clientThread\<close> replaces every \<open>&\<close> and \<open>=\<close> of the decoded URL by a blank and reads
  six items from a string stream: a word it drops, the transaction, a word it drops, the
  stock, a word it drops, and the amount. The stream library is not part of the
  repository; its extraction is modelled as the C++ standard describes it. A word is a
  maximal run of characters that are not white space. Once the stream has no word left,
  every later extraction fails and leaves its variable as it is: the strings empty, the
  amount at the 0 it was initialised with.
\<close>

definition isspace :: "char \<Rightarrow> bool" where
  "isspace c = (c \<in> set [CHR '' '', CHR 0x09, CHR 0x0A, CHR 0x0B, CHR 0x0C, CHR 0x0D])"

definition isdigit :: "char \<Rightarrow> bool" where
  "isdigit c = (48 \<le> (of_char c :: nat) \<and> (of_char c :: nat) \<le> 57)"

definition replace :: "char \<Rightarrow> char \<Rightarrow> string \<Rightarrow> string" where
  "replace a b xs = map (\<lambda>c. if c = a then b else c) xs"

fun words_of :: "string \<Rightarrow> string \<Rightarrow> string list" where
  "words_of w [] = (if w = [] then [] else [w])"
| "words_of w (c # cs) =
     (if isspace c then (if w = [] then words_of [] cs else w # words_of [] cs)
      else words_of (w @ [c]) cs)"

text \<open>
  The extraction of an \<open>unsigned int\<close> from a word: an optional sign and the decimal
  digits that follow. With no digit the extraction fails and stores 0; a value above
  \<open>UINT_MAX\<close> is stored as \<open>UINT_MAX\<close>; a minus sign negates in the unsigned type.
\<close>

definition get_unsigned :: "string \<Rightarrow> 32 word" where
  "get_unsigned w =
     (let neg = (case w of [] \<Rightarrow> False | c # _ \<Rightarrow> c = CHR ''-'');
          body = (case w of [] \<Rightarrow> [] | c # cs \<Rightarrow> if c = CHR ''-'' \<or> c = CHR ''+'' then cs else w);
          ds = takeWhile isdigit body;
          v = foldl (\<lambda>a c. 10 * a + ((of_char c :: nat) - 48)) 0 ds
      in if ds = [] then 0
         else if 4294967295 < v then 4294967295
         else if neg then - word_of_nat v else word_of_nat v)"

text \<open>The word at position \<open>i\<close> of the stream, empty when the stream has fewer words.\<close>

definition word_at :: "string list \<Rightarrow> nat \<Rightarrow> string" where
  "word_at ws i = (if i < length ws then ws ! i else [])"

definition read_trans :: "string \<Rightarrow> string" where
  "read_trans request = word_at (words_of [] (replace CHR ''='' CHR '' '' (replace CHR ''&'' CHR '' '' request))) 1"

definition read_stock :: "string \<Rightarrow> string" where
  "read_stock request = word_at (words_of [] (replace CHR ''='' CHR '' '' (replace CHR ''&'' CHR '' '' request))) 3"

definition read_amount :: "string \<Rightarrow> 32 word" where
  "read_amount request =
     (let ws = words_of [] (replace CHR ''='' CHR '' '' (replace CHR ''&'' CHR '' '' request))
      in if 5 < length ws then get_unsigned (ws ! 5) else 0)"

definition HTTPResponse :: "string \<Rightarrow> string" where
  "HTTPResponse msg =
     ''HTTP/1.1 200 OK'' @ [CHR 0x0D, CHR 0x0A] @
     ''Server: StockServer'' @ [CHR 0x0D, CHR 0x0A] @ ''Content-Length: '' @
     to_string_nat (length msg) @ [CHR 0x0D, CHR 0x0A] @
     ''Connection: Close'' @ [CHR 0x0D, CHR 0x0A] @
     ''Content - Type: text / plain'' @ [CHR 0x0D, CHR 0x0A, CHR 0x0D, CHR 0x0A] @ msg"

text \<open>
  The branch of \<open>clientThread\<close> on the transaction, run without interference: the message
  and the table after it, \<open>None\<close> when the call never returns.
\<close>

definition process :: "string \<Rightarrow> string \<Rightarrow> 32 word \<Rightarrow> stockMap \<Rightarrow> (string \<times> stockMap) option" where
  "process transaction stock amount m =
     (if transaction = ''reset'' then Some (reset m)
      else if transaction = ''create'' then Some (create stock amount m)
      else if transaction = ''buy'' then buy stock amount m
      else if transaction = ''sell'' then Some (sell stock amount m)
      else if transaction = ''status'' then Some (status stock m)
      else Some (''Invalid request'', m))"

text \<open>
  \<open>clientThread\<close> on the decoded URL \<open>request\<close>: the text written to the client and the
  table afterwards.
\<close>

definition clientThread :: "string \<Rightarrow> stockMap \<Rightarrow> (string \<times> stockMap) option" where
  "clientThread request m =
     (case process (read_trans request) (read_stock request) (read_amount request) m of
        None \<Rightarrow> None
      | Some (msg, m') \<Rightarrow> Some (HTTPResponse msg, m'))"

section \<open>The server as interleaved threads\<close>

text \<open>
  The server runs one acceptor loop (\<open>runServer\<close>) and one detached thread per
  connection (\<open>clientThread\<close>). Every thread is at a program point; one step of a thread
  runs the statement at its point, against the shared table and the shared thread
  counter. A schedule picks the thread that moves next. The points of a client thread,
  with the source lines of the statement they stand before:
  \<^item> \<open>Begin\<close> (247, the increment of \<open>threadCount\<close>), \<open>Dispatch\<close> (250 to 275, reading
    the request and branching);
  \<^item> \<open>Reset_clear\<close> (63);
  \<^item> \<open>Create_find\<close> (81), \<open>Create_name\<close> (83), \<open>Create_balance\<close> (84);
  \<^item> \<open>Buy_find\<close> (108), \<open>Buy_lock\<close> (114), \<open>Buy_check\<close> (the predicate of the wait, 116),
    \<open>Buy_sleep\<close> (suspended in the wait, mutex released), \<open>Buy_woken\<close> (notified, about
    to take the mutex again), \<open>Buy_update\<close> (119), \<open>Buy_unlock\<close> (the end of the block, 121);
  \<^item> \<open>Sell_find\<close> (142), \<open>Sell_lock\<close> (146), \<open>Sell_update\<close> (148), \<open>Sell_notify\<close> (151),
    \<open>Sell_unlock\<close> (153);
  \<^item> \<open>Status_find\<close> (170), \<open>Status_lock\<close> (174), \<open>Status_read\<close> (176), \<open>Status_unlock\<close> (178);
  \<^item> \<open>Respond\<close> (277), \<open>Release\<close> (279, the decrement), \<open>Notify\<close> (281), \<open>Finished\<close>;
  \<^item> \<open>Terminated\<close>: an exception left the thread function, which ends the process.
\<close>

datatype pc =
    Begin | Dispatch
  | Reset_clear
  | Create_find | Create_name | Create_balance
  | Buy_find | Buy_lock | Buy_check | Buy_sleep | Buy_woken | Buy_update | Buy_unlock
  | Sell_find | Sell_lock | Sell_update | Sell_notify | Sell_unlock
  | Status_find | Status_lock | Status_read | Status_unlock
  | Respond | Release | Notify | Finished | Terminated

text \<open>
  The locals of a client thread: its variables \<open>request\<close> (the decoded URL), \<open>trans\<close>,
  \<open>stock\<close>, \<open>amount\<close> and \<open>msg\<close>, and what it wrote to its client.
\<close>

record thread =
  pc :: pc
  l_request :: string
  l_trans :: string
  l_stock :: string
  l_amount :: "32 word"
  l_msg :: string
  written :: string

text \<open>
  The acceptor loop: \<open>Accept\<close> (305), \<open>Gate\<close> (the predicate of the wait on \<open>countCond\<close>,
  313), \<open>Gate_sleep\<close> (suspended in that wait), \<open>Spawn\<close> (315). Only the acceptor
  locks \<open>serverMutex\<close>, so that lock is always granted and is left out.
\<close>

datatype apc = Accept | Gate | Gate_sleep | Spawn

text \<open>
  The shared state (the namespace \<open>sm\<close>), the threads, and the connections still to come
  (\<open>backlog\<close>, each given by its decoded URL). \<open>client\<close> is the connection the acceptor
  holds. \<open>alive\<close> is false once the process has been terminated.
\<close>

record server =
  stockMap :: stockMap
  threadCount :: int
  threads :: "thread list"
  acceptor :: apc
  client :: string
  backlog :: "string list"
  alive :: bool

definition thread0 :: "string \<Rightarrow> thread" where
  "thread0 r = \<lparr>pc = Begin, l_request = r, l_trans = [], l_stock = [], l_amount = 0,
                 l_msg = [], written = []\<rparr>"

definition server0 :: "string list \<Rightarrow> server" where
  "server0 rs = \<lparr>stockMap = Map.empty, threadCount = 0, threads = [], acceptor = Accept,
                  client = [], backlog = rs, alive = True\<rparr>"

text \<open>
  \<open>Lock lock(sm::stockMap[k].mutex)\<close>: the subscript inserts a missing entry, and the
  constructor waits for the mutex (\<open>None\<close>: the thread cannot move).
\<close>

definition lock :: "nat \<Rightarrow> string \<Rightarrow> stockMap \<Rightarrow> stockMap option" where
  "lock t k m =
     (if mutex (subscript m k) = None then Some (m(k \<mapsto> (subscript m k)\<lparr>mutex := Some t\<rparr>))
      else None)"

text \<open>
  The lock object releases the mutex it took. When the entry is gone, or its mutex is not
  this thread's, there is nothing of this thread's to release.
\<close>

definition unlock :: "nat \<Rightarrow> string \<Rightarrow> stockMap \<Rightarrow> stockMap" where
  "unlock t k m =
     (case m k of None \<Rightarrow> m
      | Some e \<Rightarrow> if mutex e = Some t then m(k \<mapsto> e\<lparr>mutex := None\<rparr>) else m)"

text \<open>
  A woken waiter takes its mutex again before the predicate is evaluated. Nothing is
  inserted here; with the entry gone the thread goes on to the predicate.
\<close>

definition relock :: "nat \<Rightarrow> string \<Rightarrow> stockMap \<Rightarrow> stockMap option" where
  "relock t k m =
     (case m k of None \<Rightarrow> Some m
      | Some e \<Rightarrow> if mutex e = None then Some (m(k \<mapsto> e\<lparr>mutex := Some t\<rparr>)) else None)"

text \<open>\<open>sm::buyCond.notify_all()\<close>: there is one condition variable for all stocks.\<close>

definition notify_all :: "thread list \<Rightarrow> thread list" where
  "notify_all ths = map (\<lambda>th. if pc th = Buy_sleep then th\<lparr>pc := Buy_woken\<rparr> else th) ths"

definition entry :: "string \<Rightarrow> pc" where
  "entry transaction =
     (if transaction = ''reset'' then Reset_clear
      else if transaction = ''create'' then Create_find
      else if transaction = ''buy'' then Buy_find
      else if transaction = ''sell'' then Sell_find
      else if transaction = ''status'' then Status_find
      else Respond)"

definition goto :: "nat \<Rightarrow> thread \<Rightarrow> server \<Rightarrow> server" where
  "goto t th s = s\<lparr>threads := (threads s)[t := th]\<rparr>"

text \<open>
  What a statement of a client thread does outside its own locals and the table: nothing,
  the increment or the decrement of \<open>threadCount\<close>, \<open>buyCond.notify_all()\<close>,
  \<open>countCond.notify_one()\<close>, or the end of the process.
\<close>

datatype effect = Quiet | Count_up | Count_down | Notify_buyers | Notify_acceptor | Abort

text \<open>
  The statement at the program point of thread \<open>t\<close>, with locals \<open>th\<close>, on the table
  \<open>m\<close>: the locals and the table after it, and its effect. \<open>None\<close>: the thread cannot
  move (it waits for a mutex, it is suspended in the wait, or it has ended). In
  \<open>Buy_check\<close> the predicate calls \<open>stockMap.at(stock)\<close>, which throws when the key is
  missing; nothing catches the exception.
\<close>

definition tstep :: "nat \<Rightarrow> thread \<Rightarrow> stockMap \<Rightarrow> (thread \<times> stockMap \<times> effect) option" where
  "tstep t th m =
     (let k = l_stock th; a = l_amount th in
      case pc th of
        Begin \<Rightarrow> Some (th\<lparr>pc := Dispatch\<rparr>, m, Count_up)
      | Dispatch \<Rightarrow>
          Some (th\<lparr>pc := entry (read_trans (l_request th)),
                   l_trans := read_trans (l_request th),
                   l_stock := read_stock (l_request th),
                   l_amount := read_amount (l_request th),
                   l_msg := ''Invalid request''\<rparr>, m, Quiet)
      | Reset_clear \<Rightarrow> Some (th\<lparr>pc := Respond, l_msg := ''Stocks reset''\<rparr>, Map.empty, Quiet)
      | Create_find \<Rightarrow>
          (if m k = None then Some (th\<lparr>pc := Create_name\<rparr>, m, Quiet)
           else Some (th\<lparr>pc := Respond, l_msg := ''Stock '' @ k @ '' already exists''\<rparr>, m, Quiet))
      | Create_name \<Rightarrow>
          Some (th\<lparr>pc := Create_balance\<rparr>, m(k \<mapsto> (subscript m k)\<lparr>name := k\<rparr>), Quiet)
      | Create_balance \<Rightarrow>
          Some (th\<lparr>pc := Respond,
                   l_msg := ''Stock '' @ k @ '' created with balance = '' @ to_string_nat (unat a)\<rparr>,
                m(k \<mapsto> (subscript m k)\<lparr>balance := uint a\<rparr>), Quiet)
      | Buy_find \<Rightarrow>
          (if m k \<noteq> None then Some (th\<lparr>pc := Buy_lock\<rparr>, m, Quiet)
           else Some (th\<lparr>pc := Respond, l_msg := ''Stock not found''\<rparr>, m, Quiet))
      | Buy_lock \<Rightarrow>
          (case lock t k m of None \<Rightarrow> None
           | Some m' \<Rightarrow> Some (th\<lparr>pc := Buy_check\<rparr>, m', Quiet))
      | Buy_check \<Rightarrow>
          (case m k of
             None \<Rightarrow> Some (th\<lparr>pc := Terminated\<rparr>, m, Abort)
           | Some e \<Rightarrow>
               if uint a \<le> balance e then Some (th\<lparr>pc := Buy_update\<rparr>, m, Quiet)
               else Some (th\<lparr>pc := Buy_sleep\<rparr>, unlock t k m, Quiet))
      | Buy_sleep \<Rightarrow> None
      | Buy_woken \<Rightarrow>
          (case relock t k m of None \<Rightarrow> None
           | Some m' \<Rightarrow> Some (th\<lparr>pc := Buy_check\<rparr>, m', Quiet))
      | Buy_update \<Rightarrow>
          Some (th\<lparr>pc := Buy_unlock, l_msg := updated k\<rparr>,
                m(k \<mapsto> (subscript m k)\<lparr>balance := balance (subscript m k) - uint a\<rparr>), Quiet)
      | Buy_unlock \<Rightarrow> Some (th\<lparr>pc := Respond\<rparr>, unlock t k m, Quiet)
      | Sell_find \<Rightarrow>
          (if m k \<noteq> None then Some (th\<lparr>pc := Sell_lock\<rparr>, m, Quiet)
           else Some (th\<lparr>pc := Respond, l_msg := ''Stock not found''\<rparr>, m, Quiet))
      | Sell_lock \<Rightarrow>
          (case lock t k m of None \<Rightarrow> None
           | Some m' \<Rightarrow> Some (th\<lparr>pc := Sell_update\<rparr>, m', Quiet))
      | Sell_update \<Rightarrow>
          Some (th\<lparr>pc := Sell_notify\<rparr>,
                m(k \<mapsto> (subscript m k)\<lparr>balance := balance (subscript m k) + uint a\<rparr>), Quiet)
      | Sell_notify \<Rightarrow>
          Some (th\<lparr>pc := Sell_unlock, l_msg := updated k\<rparr>, m, Notify_buyers)
      | Sell_unlock \<Rightarrow> Some (th\<lparr>pc := Respond\<rparr>, unlock t k m, Quiet)
      | Status_find \<Rightarrow>
          (if m k \<noteq> None then Some (th\<lparr>pc := Status_lock\<rparr>, m, Quiet)
           else Some (th\<lparr>pc := Respond, l_msg := ''Stock not found''\<rparr>, m, Quiet))
      | Status_lock \<Rightarrow>
          (case lock t k m of None \<Rightarrow> None
           | Some m' \<Rightarrow> Some (th\<lparr>pc := Status_read\<rparr>, m', Quiet))
      | Status_read \<Rightarrow>
          Some (th\<lparr>pc := Status_unlock,
                   l_msg := ''Balance for stock '' @ k @ '' = '' @ to_string (balance (subscript m k))\<rparr>,
                inserted m k, Quiet)
      | Status_unlock \<Rightarrow> Some (th\<lparr>pc := Respond\<rparr>, unlock t k m, Quiet)
      | Respond \<Rightarrow> Some (th\<lparr>pc := Release, written := HTTPResponse (l_msg th)\<rparr>, m, Quiet)
      | Release \<Rightarrow> Some (th\<lparr>pc := Notify\<rparr>, m, Count_down)
      | Notify \<Rightarrow> Some (th\<lparr>pc := Finished\<rparr>, m, Notify_acceptor)
      | Finished \<Rightarrow> None
      | Terminated \<Rightarrow> None)"

text \<open>The effect of a statement on the rest of the server.\<close>

definition apply_effect :: "effect \<Rightarrow> server \<Rightarrow> server" where
  "apply_effect eff s =
     (case eff of
        Quiet \<Rightarrow> s
      | Count_up \<Rightarrow> s\<lparr>threadCount := threadCount s + 1\<rparr>
      | Count_down \<Rightarrow> s\<lparr>threadCount := threadCount s - 1\<rparr>
      | Notify_buyers \<Rightarrow> s\<lparr>threads := notify_all (threads s)\<rparr>
      | Notify_acceptor \<Rightarrow> s\<lparr>acceptor := (if acceptor s = Gate_sleep then Gate else acceptor s)\<rparr>
      | Abort \<Rightarrow> s\<lparr>alive := False\<rparr>)"

text \<open>One step of client thread \<open>t\<close> of the server; \<open>None\<close> also when there is no such thread.\<close>

definition run :: "nat \<Rightarrow> server \<Rightarrow> server option" where
  "run t s =
     (if length (threads s) \<le> t then None
      else case tstep t (threads s ! t) (stockMap s) of
        None \<Rightarrow> None
      | Some (th', m', eff) \<Rightarrow> Some (goto t th' (apply_effect eff (s\<lparr>stockMap := m'\<rparr>))))"

text \<open>
  One step of the acceptor loop, with the bound \<open>maxThreads\<close>. The thread it starts gets
  the next free index.
\<close>

definition accept :: "int \<Rightarrow> server \<Rightarrow> server option" where
  "accept maxThreads s =
     (case acceptor s of
        Accept \<Rightarrow>
          (case backlog s of [] \<Rightarrow> None
           | r # rs \<Rightarrow> Some (s\<lparr>acceptor := Gate, client := r, backlog := rs\<rparr>))
      | Gate \<Rightarrow>
          (if threadCount s < maxThreads then Some (s\<lparr>acceptor := Spawn\<rparr>)
           else Some (s\<lparr>acceptor := Gate_sleep\<rparr>))
      | Gate_sleep \<Rightarrow> None
      | Spawn \<Rightarrow> Some (s\<lparr>acceptor := Accept, threads := threads s @ [thread0 (client s)]\<rparr>))"

text \<open>
  What a schedule can pick: a step of the acceptor, a step of a client thread, or a
  spurious wake-up of a thread suspended in a wait (which the C++ library permits).
\<close>

datatype action = Acceptor | Run nat | Wake nat | Wake_acceptor

definition wake :: "nat \<Rightarrow> server \<Rightarrow> server option" where
  "wake t s =
     (if t < length (threads s) \<and> pc (threads s ! t) = Buy_sleep
      then Some (goto t ((threads s ! t)\<lparr>pc := Buy_woken\<rparr>) s) else None)"

definition step :: "int \<Rightarrow> action \<Rightarrow> server \<Rightarrow> server option" where
  "step maxThreads a s =
     (if \<not> alive s then None
      else case a of
        Acceptor \<Rightarrow> accept maxThreads s
      | Run t \<Rightarrow> run t s
      | Wake t \<Rightarrow> wake t s
      | Wake_acceptor \<Rightarrow> (if acceptor s = Gate_sleep then Some (s\<lparr>acceptor := Gate\<rparr>) else None))"

fun exec :: "int \<Rightarrow> action list \<Rightarrow> server \<Rightarrow> server option" where
  "exec maxThreads [] s = Some s"
| "exec maxThreads (a # as) s =
     (case step maxThreads a s of None \<Rightarrow> None | Some s' \<Rightarrow> exec maxThreads as s')"

section \<open>Servers without reset and create in flight\<close>

text \<open>The program points between the constructor and the destructor of a \<open>Lock\<close>: the thread has its stock's mutex.\<close>

fun holding :: "pc \<Rightarrow> bool" where
  "holding Buy_check = True"
| "holding Buy_update = True"
| "holding Buy_unlock = True"
| "holding Sell_update = True"
| "holding Sell_notify = True"
| "holding Sell_unlock = True"
| "holding Status_read = True"
| "holding Status_unlock = True"
| "holding _ = False"

text \<open>The program points of \<open>reset\<close> and \<open>create\<close>, the two functions that change which keys the table has. They take no mutex.\<close>

fun structural :: "pc \<Rightarrow> bool" where
  "structural Reset_clear = True"
| "structural Create_find = True"
| "structural Create_name = True"
| "structural Create_balance = True"
| "structural _ = False"

text \<open>The program points inside \<open>buy\<close>, inside \<open>sell\<close>, inside \<open>status\<close>, and those of \<open>clientThread\<close> after the transaction.\<close>

fun buying :: "pc \<Rightarrow> bool" where
  "buying Buy_find = True"
| "buying Buy_lock = True"
| "buying Buy_check = True"
| "buying Buy_sleep = True"
| "buying Buy_woken = True"
| "buying Buy_update = True"
| "buying Buy_unlock = True"
| "buying _ = False"

fun selling :: "pc \<Rightarrow> bool" where
  "selling Sell_find = True"
| "selling Sell_lock = True"
| "selling Sell_update = True"
| "selling Sell_notify = True"
| "selling Sell_unlock = True"
| "selling _ = False"

fun asking :: "pc \<Rightarrow> bool" where
  "asking Status_find = True"
| "asking Status_lock = True"
| "asking Status_read = True"
| "asking Status_unlock = True"
| "asking _ = False"

fun answering :: "pc \<Rightarrow> bool" where
  "answering Respond = True"
| "answering Release = True"
| "answering Notify = True"
| "answering Finished = True"
| "answering _ = False"

text \<open>A request that is neither a reset nor a create.\<close>

definition tame :: "string \<Rightarrow> bool" where
  "tame r = (read_trans r \<noteq> ''reset'' \<and> read_trans r \<noteq> ''create'')"

text \<open>A thread that is not inside \<open>reset\<close> or \<open>create\<close> and will not enter them.\<close>

definition tame_thread :: "thread \<Rightarrow> bool" where
  "tame_thread th = (\<not> structural (pc th) \<and> ((pc th = Begin \<or> pc th = Dispatch) \<longrightarrow> tame (l_request th)))"

text \<open>Thread \<open>t\<close> with locals \<open>th\<close> agrees with the table: where it holds a lock, its stock is in the table and the mutex is its own; while it waits on the condition variable, its stock is in the table.\<close>

definition owns :: "nat \<Rightarrow> thread \<Rightarrow> stockMap \<Rightarrow> bool" where
  "owns t th m =
     ((holding (pc th) \<longrightarrow> (\<exists>e. m (l_stock th) = Some e \<and> mutex e = Some t))
      \<and> (pc th = Buy_sleep \<or> pc th = Buy_woken \<longrightarrow> m (l_stock th) \<noteq> None))"

text \<open>A thread about to subtract has had its predicate \<open>amount <= balance\<close> evaluated to true on the entry as it is now.\<close>

definition checked :: "thread \<Rightarrow> stockMap \<Rightarrow> bool" where
  "checked th m = (pc th = Buy_update \<longrightarrow> (\<exists>e. m (l_stock th) = Some e \<and> uint (l_amount th) \<le> balance e))"

text \<open>Inside a transaction function, \<open>trans\<close> is the word that selected it; at the end of the locked block of \<open>buy\<close> and \<open>sell\<close>, \<open>msg\<close> is the success message.\<close>

definition typed :: "thread \<Rightarrow> bool" where
  "typed th =
     ((buying (pc th) \<longrightarrow> l_trans th = ''buy'')
      \<and> (selling (pc th) \<longrightarrow> l_trans th = ''sell'')
      \<and> (asking (pc th) \<longrightarrow> l_trans th = ''status'')
      \<and> (pc th = Buy_unlock \<or> pc th = Sell_unlock \<longrightarrow> l_msg th = updated (l_stock th)))"

text \<open>All of these, for one thread.\<close>

definition good :: "nat \<Rightarrow> thread \<Rightarrow> stockMap \<Rightarrow> bool" where
  "good t th m = (tame_thread th \<and> owns t th m \<and> checked th m \<and> typed th)"

text \<open>No balance in the table is negative.\<close>

definition nonneg :: "stockMap \<Rightarrow> bool" where
  "nonneg m = (\<forall>k e. m k = Some e \<longrightarrow> 0 \<le> balance e)"

text \<open>A thread whose buy went through: it is past the subtraction (line 119), so its message is the success message. Likewise a sell past the addition (line 148).\<close>

definition did_buy :: "thread \<Rightarrow> bool" where
  "did_buy th = (l_trans th = ''buy'' \<and> (pc th = Buy_unlock \<or> answering (pc th))
                 \<and> l_msg th = updated (l_stock th))"

definition did_sell :: "thread \<Rightarrow> bool" where
  "did_sell th = (l_trans th = ''sell'' \<and>
                  (pc th = Sell_notify \<or> pc th = Sell_unlock
                   \<or> answering (pc th) \<and> l_msg th = updated (l_stock th)))"

text \<open>The amount a thread has taken from stock \<open>k\<close>, and the amount it has added to it.\<close>

definition bought_by :: "string \<Rightarrow> thread \<Rightarrow> int" where
  "bought_by k th = (if did_buy th \<and> l_stock th = k then uint (l_amount th) else 0)"

definition sold_by :: "string \<Rightarrow> thread \<Rightarrow> int" where
  "sold_by k th = (if did_sell th \<and> l_stock th = k then uint (l_amount th) else 0)"

text \<open>The sum of the amounts of all buys of \<open>k\<close> that went through, and of all sells of \<open>k\<close>.\<close>

definition bought :: "string \<Rightarrow> server \<Rightarrow> int" where
  "bought k s = sum_list (map (bought_by k) (threads s))"

definition sold :: "string \<Rightarrow> server \<Rightarrow> int" where
  "sold k s = sum_list (map (sold_by k) (threads s))"

text \<open>The balance of \<open>k\<close> in the table, 0 when \<open>k\<close> is not in it.\<close>

definition stock_balance :: "stockMap \<Rightarrow> string \<Rightarrow> int" where
  "stock_balance m k = (case m k of None \<Rightarrow> 0 | Some e \<Rightarrow> balance e)"

text \<open>A server in which only buy, sell, status and invalid requests are in flight or still to come, every thread agrees with the table, and no balance is negative.\<close>

definition orderly :: "server \<Rightarrow> bool" where
  "orderly s = ((\<forall>t < length (threads s). good t (threads s ! t) (stockMap s)) \<and> nonneg (stockMap s)
                \<and> (\<forall>r \<in> set (backlog s). tame r) \<and> tame (client s))"

text \<open>What \<open>k\<close> holds plus what was taken from it minus what was added to it.\<close>

definition credit :: "string \<Rightarrow> server \<Rightarrow> int" where
  "credit k s = stock_balance (stockMap s) k + bought k s - sold k s"



section \<open>Servers without reset in flight\<close>


definition created_msg :: "string \<Rightarrow> 32 word \<Rightarrow> string" where
  "created_msg k a = ''Stock '' @ k @ '' created with balance = '' @ to_string_nat (unat a)"






text \<open>A thread whose create went through: it is past the assignment of the balance (line 84), so its message is the one of lines 85-86. The amount it gave stock \<open>k\<close>, and the sum over all threads.\<close>

definition did_create :: "thread \<Rightarrow> bool" where
  "did_create th = (l_trans th = ''create'' \<and> answering (pc th)
                    \<and> l_msg th = created_msg (l_stock th) (l_amount th))"

definition created_by :: "string \<Rightarrow> thread \<Rightarrow> int" where
  "created_by k th = (if did_create th \<and> l_stock th = k then uint (l_amount th) else 0)"

definition created :: "string \<Rightarrow> server \<Rightarrow> int" where
  "created k s = sum_list (map (created_by k) (threads s))"



section \<open>Example servers\<close>

text \<open>
  A server with one client thread at program point \<open>p\<close>, inside the transaction \<open>tr\<close> on
  stock \<open>k\<close> with amount \<open>a\<close>; a table with the one stock ACME; and the scenario of a
  buy of 150 that has to wait for a sell of 100 on a stock created with 100.
\<close>

definition one_thread :: "pc \<Rightarrow> string \<Rightarrow> string \<Rightarrow> 32 word \<Rightarrow> stockMap \<Rightarrow> string list \<Rightarrow> server" where
  "one_thread p tr k a m rs =
     \<lparr>stockMap = m, threadCount = 1,
      threads = [\<lparr>pc = p, l_request = [], l_trans = tr, l_stock = k, l_amount = a,
                  l_msg = ''Invalid request'', written = []\<rparr>],
      acceptor = Accept, client = [], backlog = rs, alive = True\<rparr>"

definition acme :: "int \<Rightarrow> nat option \<Rightarrow> stockMap" where
  "acme b owner = [''ACME'' \<mapsto> \<lparr>name = ''ACME'', balance = b, mutex = owner\<rparr>]"

definition acme_server :: server where
  "acme_server =
     (server0 [''trans=buy&stock=ACME&amount=150'', ''trans=sell&stock=ACME&amount=100''])
       \<lparr>stockMap := acme 100 None\<rparr>"

definition acme_arrival :: "action list" where
  "acme_arrival = [Acceptor, Acceptor, Acceptor, Acceptor, Acceptor, Acceptor, Run 0, Run 0, Run 0]"

definition acme_trading :: "action list" where
  "acme_trading =
     [Run 0, Run 0,
      Run 1, Run 1, Run 1, Run 1, Run 1, Run 1, Run 1,
      Run 0, Run 0, Run 0]"

definition acme_schedule :: "action list" where
  "acme_schedule = acme_arrival @ acme_trading"




section \<open>The statement at each program point\<close>

lemma entry_cases:
  "entry tr = Buy_find \<and> tr = ''buy'' \<or> entry tr = Sell_find \<and> tr = ''sell'' \<or>
   entry tr = Status_find \<and> tr = ''status'' \<or> entry tr = Reset_clear \<and> tr = ''reset'' \<or>
   entry tr = Create_find \<and> tr = ''create'' \<or> entry tr = Respond"
  by (simp add: entry_def)

lemma tstep_Begin:
  "pc th = Begin \<Longrightarrow> tstep t th m =
     (Some (th\<lparr>pc := Dispatch\<rparr>, m, Count_up))"
  by (simp add: tstep_def) (simp add: Let_def)?

lemma tstep_Dispatch:
  "pc th = Dispatch \<Longrightarrow> tstep t th m =
     (Some (th\<lparr>pc := entry (read_trans (l_request th)),
                   l_trans := read_trans (l_request th),
                   l_stock := read_stock (l_request th),
                   l_amount := read_amount (l_request th),
                   l_msg := ''Invalid request''\<rparr>, m, Quiet))"
  by (simp add: tstep_def) (simp add: Let_def)?

lemma tstep_Reset_clear:
  "pc th = Reset_clear \<Longrightarrow> tstep t th m =
     (Some (th\<lparr>pc := Respond, l_msg := ''Stocks reset''\<rparr>, Map.empty, Quiet))"
  by (simp add: tstep_def) (simp add: Let_def)?

lemma tstep_Create_find:
  "pc th = Create_find \<Longrightarrow> tstep t th m =
     ((if m (l_stock th) = None then Some (th\<lparr>pc := Create_name\<rparr>, m, Quiet)
           else Some (th\<lparr>pc := Respond, l_msg := ''Stock '' @ (l_stock th) @ '' already exists''\<rparr>, m, Quiet)))"
  by (simp add: tstep_def) (simp add: Let_def)?

lemma tstep_Create_name:
  "pc th = Create_name \<Longrightarrow> tstep t th m =
     (Some (th\<lparr>pc := Create_balance\<rparr>, m((l_stock th) \<mapsto> (subscript m (l_stock th))\<lparr>name := (l_stock th)\<rparr>), Quiet))"
  by (simp add: tstep_def) (simp add: Let_def)?

lemma tstep_Create_balance:
  "pc th = Create_balance \<Longrightarrow> tstep t th m =
     (Some (th\<lparr>pc := Respond,
                   l_msg := ''Stock '' @ (l_stock th) @ '' created with balance = '' @ to_string_nat (unat (l_amount th))\<rparr>,
                m((l_stock th) \<mapsto> (subscript m (l_stock th))\<lparr>balance := uint (l_amount th)\<rparr>), Quiet))"
  by (simp add: tstep_def) (simp add: Let_def)?

lemma tstep_Buy_find:
  "pc th = Buy_find \<Longrightarrow> tstep t th m =
     ((if m (l_stock th) \<noteq> None then Some (th\<lparr>pc := Buy_lock\<rparr>, m, Quiet)
           else Some (th\<lparr>pc := Respond, l_msg := ''Stock not found''\<rparr>, m, Quiet)))"
  by (simp add: tstep_def) (simp add: Let_def)?

lemma tstep_Buy_lock:
  "pc th = Buy_lock \<Longrightarrow> tstep t th m =
     ((case lock t (l_stock th) m of None \<Rightarrow> None
           | Some m' \<Rightarrow> Some (th\<lparr>pc := Buy_check\<rparr>, m', Quiet)))"
  by (simp add: tstep_def) (simp add: Let_def)?

lemma tstep_Buy_check:
  "pc th = Buy_check \<Longrightarrow> tstep t th m =
     ((case m (l_stock th) of
             None \<Rightarrow> Some (th\<lparr>pc := Terminated\<rparr>, m, Abort)
           | Some e \<Rightarrow>
               if uint (l_amount th) \<le> balance e then Some (th\<lparr>pc := Buy_update\<rparr>, m, Quiet)
               else Some (th\<lparr>pc := Buy_sleep\<rparr>, unlock t (l_stock th) m, Quiet)))"
  by (simp add: tstep_def) (simp add: Let_def)?

lemma tstep_Buy_sleep:
  "pc th = Buy_sleep \<Longrightarrow> tstep t th m =
     (None)"
  by (simp add: tstep_def) (simp add: Let_def)?

lemma tstep_Buy_woken:
  "pc th = Buy_woken \<Longrightarrow> tstep t th m =
     ((case relock t (l_stock th) m of None \<Rightarrow> None
           | Some m' \<Rightarrow> Some (th\<lparr>pc := Buy_check\<rparr>, m', Quiet)))"
  by (simp add: tstep_def) (simp add: Let_def)?

lemma tstep_Buy_update:
  "pc th = Buy_update \<Longrightarrow> tstep t th m =
     (Some (th\<lparr>pc := Buy_unlock, l_msg := updated (l_stock th)\<rparr>,
                m((l_stock th) \<mapsto> (subscript m (l_stock th))\<lparr>balance := balance (subscript m (l_stock th)) - uint (l_amount th)\<rparr>), Quiet))"
  by (simp add: tstep_def) (simp add: Let_def)?

lemma tstep_Buy_unlock:
  "pc th = Buy_unlock \<Longrightarrow> tstep t th m =
     (Some (th\<lparr>pc := Respond\<rparr>, unlock t (l_stock th) m, Quiet))"
  by (simp add: tstep_def) (simp add: Let_def)?

lemma tstep_Sell_find:
  "pc th = Sell_find \<Longrightarrow> tstep t th m =
     ((if m (l_stock th) \<noteq> None then Some (th\<lparr>pc := Sell_lock\<rparr>, m, Quiet)
           else Some (th\<lparr>pc := Respond, l_msg := ''Stock not found''\<rparr>, m, Quiet)))"
  by (simp add: tstep_def) (simp add: Let_def)?

lemma tstep_Sell_lock:
  "pc th = Sell_lock \<Longrightarrow> tstep t th m =
     ((case lock t (l_stock th) m of None \<Rightarrow> None
           | Some m' \<Rightarrow> Some (th\<lparr>pc := Sell_update\<rparr>, m', Quiet)))"
  by (simp add: tstep_def) (simp add: Let_def)?

lemma tstep_Sell_update:
  "pc th = Sell_update \<Longrightarrow> tstep t th m =
     (Some (th\<lparr>pc := Sell_notify\<rparr>,
                m((l_stock th) \<mapsto> (subscript m (l_stock th))\<lparr>balance := balance (subscript m (l_stock th)) + uint (l_amount th)\<rparr>), Quiet))"
  by (simp add: tstep_def) (simp add: Let_def)?

lemma tstep_Sell_notify:
  "pc th = Sell_notify \<Longrightarrow> tstep t th m =
     (Some (th\<lparr>pc := Sell_unlock, l_msg := updated (l_stock th)\<rparr>, m, Notify_buyers))"
  by (simp add: tstep_def) (simp add: Let_def)?

lemma tstep_Sell_unlock:
  "pc th = Sell_unlock \<Longrightarrow> tstep t th m =
     (Some (th\<lparr>pc := Respond\<rparr>, unlock t (l_stock th) m, Quiet))"
  by (simp add: tstep_def) (simp add: Let_def)?

lemma tstep_Status_find:
  "pc th = Status_find \<Longrightarrow> tstep t th m =
     ((if m (l_stock th) \<noteq> None then Some (th\<lparr>pc := Status_lock\<rparr>, m, Quiet)
           else Some (th\<lparr>pc := Respond, l_msg := ''Stock not found''\<rparr>, m, Quiet)))"
  by (simp add: tstep_def) (simp add: Let_def)?

lemma tstep_Status_lock:
  "pc th = Status_lock \<Longrightarrow> tstep t th m =
     ((case lock t (l_stock th) m of None \<Rightarrow> None
           | Some m' \<Rightarrow> Some (th\<lparr>pc := Status_read\<rparr>, m', Quiet)))"
  by (simp add: tstep_def) (simp add: Let_def)?

lemma tstep_Status_read:
  "pc th = Status_read \<Longrightarrow> tstep t th m =
     (Some (th\<lparr>pc := Status_unlock,
                   l_msg := ''Balance for stock '' @ (l_stock th) @ '' = '' @ to_string (balance (subscript m (l_stock th)))\<rparr>,
                inserted m (l_stock th), Quiet))"
  by (simp add: tstep_def) (simp add: Let_def)?

lemma tstep_Status_unlock:
  "pc th = Status_unlock \<Longrightarrow> tstep t th m =
     (Some (th\<lparr>pc := Respond\<rparr>, unlock t (l_stock th) m, Quiet))"
  by (simp add: tstep_def) (simp add: Let_def)?

lemma tstep_Respond:
  "pc th = Respond \<Longrightarrow> tstep t th m =
     (Some (th\<lparr>pc := Release, written := HTTPResponse (l_msg th)\<rparr>, m, Quiet))"
  by (simp add: tstep_def) (simp add: Let_def)?

lemma tstep_Release:
  "pc th = Release \<Longrightarrow> tstep t th m =
     (Some (th\<lparr>pc := Notify\<rparr>, m, Count_down))"
  by (simp add: tstep_def) (simp add: Let_def)?

lemma tstep_Notify:
  "pc th = Notify \<Longrightarrow> tstep t th m =
     (Some (th\<lparr>pc := Finished\<rparr>, m, Notify_acceptor))"
  by (simp add: tstep_def) (simp add: Let_def)?

lemma tstep_Finished:
  "pc th = Finished \<Longrightarrow> tstep t th m =
     (None)"
  by (simp add: tstep_def) (simp add: Let_def)?

lemma tstep_Terminated:
  "pc th = Terminated \<Longrightarrow> tstep t th m =
     (None)"
  by (simp add: tstep_def) (simp add: Let_def)?

lemmas tstep_simps =
  tstep_Begin tstep_Dispatch tstep_Reset_clear tstep_Create_find tstep_Create_name tstep_Create_balance tstep_Buy_find tstep_Buy_lock tstep_Buy_check tstep_Buy_sleep tstep_Buy_woken tstep_Buy_update tstep_Buy_unlock tstep_Sell_find tstep_Sell_lock tstep_Sell_update tstep_Sell_notify tstep_Sell_unlock tstep_Status_find tstep_Status_lock tstep_Status_read tstep_Status_unlock tstep_Respond tstep_Release tstep_Notify tstep_Finished tstep_Terminated

lemmas ldefs = lock_def unlock_def relock_def subscript_def inserted_def Stock0_def

lemma typed_self:
  assumes "typed th"
  shows "\<forall>th' m' eff. tstep t th m = Some (th', m', eff) \<longrightarrow> typed th'"
  using assms entry_cases [of "read_trans (l_request th)"]
  apply (cases "pc th")
  apply (simp_all add: tstep_simps typed_def split: option.split)
  apply auto
  done

lemma tame_self:
  assumes "tame_thread th"
  shows "\<forall>th' m' eff. tstep t th m = Some (th', m', eff) \<longrightarrow> tame_thread th'"
  using assms entry_cases [of "read_trans (l_request th)"]
  apply (cases "pc th")
  apply (simp_all add: tstep_simps tame_thread_def split: option.split)
  apply (auto simp: tame_def)
  done

lemma owns_self:
  assumes "owns t th m" "tame_thread th"
  shows "\<forall>th' m' eff. tstep t th m = Some (th', m', eff) \<longrightarrow> owns t th' m'"
  using assms entry_cases [of "read_trans (l_request th)"]
  apply (cases "pc th")
  apply (simp_all add: tstep_simps owns_def tame_thread_def split: option.split)
  apply (auto simp: ldefs tame_def split: option.splits if_splits)
  done

lemma checked_self:
  assumes "tame_thread th"
  shows "\<forall>th' m' eff. tstep t th m = Some (th', m', eff) \<longrightarrow> checked th' m'"
  using assms entry_cases [of "read_trans (l_request th)"]
  apply (cases "pc th")
  apply (simp_all add: tstep_simps checked_def tame_thread_def split: option.split)
  apply (auto simp: ldefs tame_def split: option.splits if_splits)
  done

lemma good_self:
  assumes "good t th m" "tstep t th m = Some (th', m', eff)"
  shows "good t th' m'"
  using assms typed_self [of th t m] tame_self [of th t m] owns_self [of t th m] checked_self [of th t m]
  unfolding good_def by blast


lemma owns_other:
  assumes "u \<noteq> t" "tame_thread th" "owns t th m" "owns u thu m"
  shows "\<forall>th' m' eff. tstep t th m = Some (th', m', eff) \<longrightarrow> owns u thu m'"
  using assms
  apply (cases "pc th")
  apply (simp_all add: tstep_simps tame_thread_def split: option.split)
  apply (auto simp: owns_def ldefs split: option.splits if_splits)
  done

lemma checked_other:
  assumes "u \<noteq> t" "tame_thread th" "owns t th m" "owns u thu m" "checked thu m"
  shows "\<forall>th' m' eff. tstep t th m = Some (th', m', eff) \<longrightarrow> checked thu m'"
  using assms
  apply (cases "pc th")
  apply (simp_all add: tstep_simps tame_thread_def split: option.split)
  apply (auto simp: owns_def checked_def ldefs split: option.splits if_splits)
  done

lemma good_other:
  assumes "u \<noteq> t" "good t th m" "good u thu m" "tstep t th m = Some (th', m', eff)"
  shows "good u thu m'"
  using assms owns_other [of u t th m thu] checked_other [of u t th m thu]
  unfolding good_def by blast

lemma nonneg_step:
  assumes "tame_thread th" "owns t th m" "checked th m" "nonneg m"
  shows "\<forall>th' m' eff. tstep t th m = Some (th', m', eff) \<longrightarrow> nonneg m'"
  using assms
  apply (cases "pc th")
  apply (simp_all add: tstep_simps tame_thread_def split: option.split)
  apply (auto simp: nonneg_def owns_def checked_def ldefs split: option.splits if_splits)
  done

lemma good_woken: "good u thu m \<Longrightarrow> pc thu = Buy_sleep \<Longrightarrow> good u (thu\<lparr>pc := Buy_woken\<rparr>) m"
  by (simp add: good_def tame_thread_def owns_def checked_def typed_def)


lemma updated_differs:
  "updated k \<noteq> ''Stock not found''" "''Stock not found'' \<noteq> updated k"
  "updated k \<noteq> ''Invalid request''" "''Invalid request'' \<noteq> updated k"
proof -
  have "updated k = ''Stock not found'' \<Longrightarrow> False"
  proof -
    assume "updated k = ''Stock not found''"
    then have "length (updated k) = length ''Stock not found''" by (rule arg_cong)
    then show False by (simp add: updated_def)
  qed
  then show "updated k \<noteq> ''Stock not found''" "''Stock not found'' \<noteq> updated k"
    by auto
  show "updated k \<noteq> ''Invalid request''" "''Invalid request'' \<noteq> updated k"
    by (simp_all add: updated_def)
qed

lemma balance_step:
  assumes "good t th m"
  shows "\<forall>th' m' eff. tstep t th m = Some (th', m', eff) \<longrightarrow>
           stock_balance m' k = stock_balance m k
             + (if pc th = Sell_update \<and> l_stock th = k then uint (l_amount th) else 0)
             - (if pc th = Buy_update \<and> l_stock th = k then uint (l_amount th) else 0)"
  using assms
  apply (cases "pc th")
  apply (simp_all add: tstep_simps good_def tame_thread_def owns_def split: option.split)
  apply (auto simp: stock_balance_def ldefs split: option.splits if_splits)
  done


lemma bought_step:
  assumes "good t th m"
  shows "\<forall>th' m' eff. tstep t th m = Some (th', m', eff) \<longrightarrow>
           bought_by k th' = bought_by k th
             + (if pc th = Buy_update \<and> l_stock th = k then uint (l_amount th) else 0)"
  using assms entry_cases [of "read_trans (l_request th)"]
  apply (cases "pc th")
  apply (simp_all add: tstep_simps updated_differs good_def tame_thread_def typed_def
                       bought_by_def did_buy_def split: option.split)
  done


lemma sold_step:
  assumes "good t th m"
  shows "\<forall>th' m' eff. tstep t th m = Some (th', m', eff) \<longrightarrow>
           sold_by k th' = sold_by k th
             + (if pc th = Sell_update \<and> l_stock th = k then uint (l_amount th) else 0)"
  using assms entry_cases [of "read_trans (l_request th)"]
  apply (cases "pc th")
  apply (simp_all add: tstep_simps updated_differs good_def tame_thread_def typed_def
                       sold_by_def did_sell_def split: option.split)
  apply auto
  done

lemma conserve_self:
  assumes "good t th m" "tstep t th m = Some (th', m', eff)"
  shows "stock_balance m' k + bought_by k th' - sold_by k th' =
         stock_balance m k + bought_by k th - sold_by k th"
  using assms balance_step [of t th m k] bought_step [of t th m k] sold_step [of t th m k]
  by simp

lemma woken_counts:
  "pc thu = Buy_sleep \<Longrightarrow> bought_by k (thu\<lparr>pc := Buy_woken\<rparr>) = bought_by k thu
     \<and> sold_by k (thu\<lparr>pc := Buy_woken\<rparr>) = sold_by k thu"
  by (simp add: bought_by_def sold_by_def did_buy_def did_sell_def)

lemma notify_all_counts:
  "map (bought_by k) (notify_all ths) = map (bought_by k) ths
   \<and> map (sold_by k) (notify_all ths) = map (sold_by k) ths"
  by (simp add: notify_all_def woken_counts)

lemma sum_list_map_update:
  fixes f :: "'a \<Rightarrow> int"
  shows "t < length xs \<Longrightarrow> sum_list (map f (xs[t := x])) = sum_list (map f xs) - f (xs ! t) + f x"
proof (induction xs arbitrary: t)
  case Nil
  then show ?case by simp
next
  case (Cons y ys)
  then show ?case by (cases t) simp_all
qed

lemma run_shape:
  assumes "run t s = Some s'"
  shows "\<exists>th' m' eff. t < length (threads s) \<and> tstep t (threads s ! t) (stockMap s) = Some (th', m', eff)
           \<and> threads s' = (if eff = Notify_buyers then notify_all (threads s) else threads s)[t := th']
           \<and> stockMap s' = m' \<and> backlog s' = backlog s \<and> client s' = client s"
proof -
  from assms have t: "t < length (threads s)"
    by (simp add: run_def split: if_splits)
  from assms t obtain th' m' eff where
    ts: "tstep t (threads s ! t) (stockMap s) = Some (th', m', eff)"
    and s': "s' = goto t th' (apply_effect eff (s\<lparr>stockMap := m'\<rparr>))"
    by (auto simp: run_def split: option.splits)
  have "threads s' = (if eff = Notify_buyers then notify_all (threads s) else threads s)[t := th']
           \<and> stockMap s' = m' \<and> backlog s' = backlog s \<and> client s' = client s"
    unfolding s' by (cases eff) (simp_all add: goto_def apply_effect_def)
  with t ts show ?thesis by blast
qed


lemma run_orderly:
  assumes "orderly s" "run t s = Some s'"
  shows "orderly s' \<and> credit k s' = credit k s"
proof -
  from run_shape [OF assms(2)] obtain th' m' eff where
    t: "t < length (threads s)"
    and ts: "tstep t (threads s ! t) (stockMap s) = Some (th', m', eff)"
    and ths': "threads s' = (if eff = Notify_buyers then notify_all (threads s) else threads s)[t := th']"
    and m': "stockMap s' = m'" and rest: "backlog s' = backlog s" "client s' = client s"
    by blast
  let ?ths0 = "if eff = Notify_buyers then notify_all (threads s) else threads s"
  have len0: "length ?ths0 = length (threads s)" by (simp add: notify_all_def)
  have gt: "good t (threads s ! t) (stockMap s)"
    using assms(1) t by (simp add: orderly_def)
  have good_all: "good u (threads s' ! u) (stockMap s')" if u: "u < length (threads s')" for u
  proof (cases "u = t")
    case True
    then show ?thesis using good_self [OF gt ts] t len0 by (simp add: ths' m')
  next
    case False
    from u have u': "u < length (threads s)" by (simp add: ths' len0)
    have gu: "good u (threads s ! u) (stockMap s)"
      using assms(1) u' by (simp add: orderly_def)
    have gu': "good u (threads s ! u) m'"
      by (rule good_other [OF False gt gu ts])
    have "good u (?ths0 ! u) m'"
      using gu' u' by (simp add: notify_all_def good_woken)
    then show ?thesis using False by (simp add: ths' m')
  qed
  have nn: "nonneg (stockMap s')"
    using nonneg_step [of "threads s ! t" t "stockMap s"] gt ts assms(1)
    by (simp add: good_def orderly_def m')
  have ord: "orderly s'"
    using good_all nn assms(1) rest by (simp add: orderly_def)
  have b: "bought k s' = bought k s - bought_by k (threads s ! t) + bought_by k th'"
  proof -
    have "map (bought_by k) ?ths0 = map (bought_by k) (threads s)"
      by (simp add: notify_all_counts)
    moreover have "bought_by k (?ths0 ! t) = bought_by k (threads s ! t)"
      using t by (simp add: notify_all_def woken_counts)
    ultimately show ?thesis
      using t len0 sum_list_map_update [of t ?ths0 "bought_by k" th']
      by (simp add: bought_def ths')
  qed
  have sl: "sold k s' = sold k s - sold_by k (threads s ! t) + sold_by k th'"
  proof -
    have "map (sold_by k) ?ths0 = map (sold_by k) (threads s)"
      by (simp add: notify_all_counts)
    moreover have "sold_by k (?ths0 ! t) = sold_by k (threads s ! t)"
      using t by (simp add: notify_all_def woken_counts)
    ultimately show ?thesis
      using t len0 sum_list_map_update [of t ?ths0 "sold_by k" th']
      by (simp add: sold_def ths')
  qed
  have "credit k s' = credit k s"
    using conserve_self [OF gt ts, of k] b sl by (simp add: credit_def m')
  with ord show ?thesis by simp
qed

lemma thread0_good: "tame r \<Longrightarrow> good u (thread0 r) m"
  by (simp add: good_def tame_thread_def owns_def checked_def typed_def thread0_def)

lemma thread0_counts: "bought_by k (thread0 r) = 0 \<and> sold_by k (thread0 r) = 0"
  by (simp add: bought_by_def sold_by_def did_buy_def did_sell_def thread0_def)

lemma accept_orderly:
  assumes "orderly s" "accept N s = Some s'"
  shows "orderly s' \<and> credit k s' = credit k s"
proof (cases "acceptor s")
  case Accept
  with assms show ?thesis
    by (auto simp: accept_def orderly_def credit_def bought_def sold_def split: list.splits)
next
  case Gate
  with assms show ?thesis
    by (auto simp: accept_def orderly_def credit_def bought_def sold_def split: if_splits)
next
  case Gate_sleep
  with assms show ?thesis by (simp add: accept_def)
next
  case Spawn
  with assms have s': "s' = s\<lparr>acceptor := Accept, threads := threads s @ [thread0 (client s)]\<rparr>"
    by (simp add: accept_def)
  have "good u (threads s' ! u) (stockMap s')" if "u < length (threads s')" for u
    using that assms(1) thread0_good [of "client s" u "stockMap s"]
    by (auto simp: s' orderly_def nth_append)
  then have "orderly s'" using assms(1) by (simp add: orderly_def s')
  moreover have "credit k s' = credit k s"
    by (simp add: s' credit_def bought_def sold_def thread0_counts)
  ultimately show ?thesis by simp
qed

lemma wake_orderly:
  assumes "orderly s" "wake t s = Some s'"
  shows "orderly s' \<and> credit k s' = credit k s"
proof -
  from assms(2) have t: "t < length (threads s)" and sl: "pc (threads s ! t) = Buy_sleep"
    and s': "s' = s\<lparr>threads := (threads s)[t := (threads s ! t)\<lparr>pc := Buy_woken\<rparr>]\<rparr>"
    by (auto simp: wake_def goto_def split: if_splits)
  have "good u (threads s' ! u) (stockMap s')" if "u < length (threads s')" for u
    using that assms(1) sl good_woken [of t "threads s ! t" "stockMap s"]
    by (cases "u = t") (auto simp: s' orderly_def)
  then have "orderly s'" using assms(1) by (simp add: orderly_def s')
  moreover have "credit k s' = credit k s"
    using t sl sum_list_map_update [of t "threads s" "bought_by k"]
      sum_list_map_update [of t "threads s" "sold_by k"]
    by (simp add: s' credit_def bought_def sold_def woken_counts)
  ultimately show ?thesis by simp
qed

lemma step_orderly:
  assumes "orderly s" "step N a s = Some s'"
  shows "orderly s' \<and> credit k s' = credit k s"
proof (cases a)
  case Acceptor
  with assms show ?thesis by (auto simp: step_def split: if_splits dest: accept_orderly)
next
  case (Run t)
  with assms show ?thesis by (auto simp: step_def split: if_splits dest: run_orderly)
next
  case (Wake t)
  with assms show ?thesis by (auto simp: step_def split: if_splits dest: wake_orderly)
next
  case Wake_acceptor
  with assms show ?thesis
    by (auto simp: step_def orderly_def credit_def bought_def sold_def split: if_splits)
qed

lemma exec_orderly:
  "orderly s \<Longrightarrow> exec N sched s = Some s' \<Longrightarrow> orderly s' \<and> credit k s' = credit k s"
proof (induction sched arbitrary: s)
  case Nil
  then show ?case by simp
next
  case (Cons a sched)
  from Cons.prems(2) obtain s1 where s1: "step N a s = Some s1" and rest: "exec N sched s1 = Some s'"
    by (auto split: option.splits)
  from step_orderly [OF Cons.prems(1) s1, of k] have "orderly s1" "credit k s1 = credit k s"
    by simp_all
  with Cons.IH [OF _ rest] show ?case by simp
qed











































lemma supply_bound:
  assumes "threads s = []" "nonneg (stockMap s)" "\<forall>r \<in> set (backlog s). tame r" "tame (client s)"
    "exec N sched s = Some s'"
  shows "bought k s' \<le> stock_balance (stockMap s) k + sold k s' \<and> nonneg (stockMap s')"
proof -
  have ord: "orderly s" using assms(1-4) by (simp add: orderly_def)
  from exec_orderly [OF ord assms(5), of k] have o': "orderly s'" and c: "credit k s' = credit k s"
    by simp_all
  have "credit k s = stock_balance (stockMap s) k"
    using assms(1) by (simp add: credit_def bought_def sold_def)
  moreover have "0 \<le> stock_balance (stockMap s') k"
    using o' by (auto simp: orderly_def nonneg_def stock_balance_def split: option.splits)
  ultimately show ?thesis using c o' by (simp add: credit_def orderly_def)
qed

lemmas run_defs = step_def run_def tstep_simps goto_def apply_effect_def


section \<open>A transaction run alone\<close>

lemma buy_solo:
  assumes "t < length (threads s)" "alive s" "pc (threads s ! t) = Buy_find"
    "stockMap s (l_stock (threads s ! t)) = Some e" "mutex e = None"
    "uint (l_amount (threads s ! t)) \<le> balance e"
  shows "exec N [Run t, Run t, Run t, Run t, Run t] s =
     Some (s\<lparr>stockMap := (stockMap s)(l_stock (threads s ! t) \<mapsto>
                 e\<lparr>balance := balance e - uint (l_amount (threads s ! t))\<rparr>),
            threads := (threads s)[t := (threads s ! t)\<lparr>
              l_msg := updated (l_stock (threads s ! t)), pc := Respond\<rparr>]\<rparr>)
     \<and> buy (l_stock (threads s ! t)) (l_amount (threads s ! t)) (stockMap s) =
         Some (updated (l_stock (threads s ! t)),
               (stockMap s)(l_stock (threads s ! t) \<mapsto>
                 e\<lparr>balance := balance e - uint (l_amount (threads s ! t))\<rparr>))"
proof -
  obtain p r tr k a msg w where th: "threads s ! t = \<lparr>pc = p, l_request = r, l_trans = tr, l_stock = k, l_amount = a, l_msg = msg, written = w\<rparr>"
    by (cases "threads s ! t")
  obtain nm b mx where e: "e = \<lparr>name = nm, balance = b, mutex = mx\<rparr>"
    by (cases e)
  show ?thesis
    using assms by (simp add: th e run_defs lock_def unlock_def subscript_def buy_def)
qed

lemma buy_solo_waits:
  assumes "t < length (threads s)" "alive s" "pc (threads s ! t) = Buy_find"
    "stockMap s (l_stock (threads s ! t)) = Some e" "mutex e = None"
    "balance e < uint (l_amount (threads s ! t))"
  shows "exec N [Run t, Run t, Run t] s =
     Some (s\<lparr>stockMap := stockMap s, threads := (threads s)[t := (threads s ! t)\<lparr>pc := Buy_sleep\<rparr>]\<rparr>)
     \<and> buy (l_stock (threads s ! t)) (l_amount (threads s ! t)) (stockMap s) = None"
proof -
  obtain p r tr k a msg w where th: "threads s ! t = \<lparr>pc = p, l_request = r, l_trans = tr, l_stock = k, l_amount = a, l_msg = msg, written = w\<rparr>"
    by (cases "threads s ! t")
  obtain nm b mx where e: "e = \<lparr>name = nm, balance = b, mutex = mx\<rparr>"
    by (cases e)
  show ?thesis
    using assms by (simp add: th e run_defs lock_def unlock_def subscript_def buy_def map_upd_triv)
qed

lemma buy_solo_absent:
  assumes "t < length (threads s)" "alive s" "pc (threads s ! t) = Buy_find"
    "stockMap s (l_stock (threads s ! t)) = None"
  shows "step N (Run t) s =
     Some (s\<lparr>threads := (threads s)[t := (threads s ! t)\<lparr>l_msg := ''Stock not found'', pc := Respond\<rparr>]\<rparr>)"
proof -
  obtain p r tr k a msg w where th: "threads s ! t = \<lparr>pc = p, l_request = r, l_trans = tr, l_stock = k, l_amount = a, l_msg = msg, written = w\<rparr>"
    by (cases "threads s ! t")
  show ?thesis
    using assms by (simp add: th run_defs)
qed




lemma sell_solo_absent:
  assumes "t < length (threads s)" "alive s" "pc (threads s ! t) = Sell_find"
    "stockMap s (l_stock (threads s ! t)) = None"
  shows "step N (Run t) s =
     Some (s\<lparr>threads := (threads s)[t := (threads s ! t)\<lparr>l_msg := ''Stock not found'', pc := Respond\<rparr>]\<rparr>)"
proof -
  obtain p r tr k a msg w where th: "threads s ! t = \<lparr>pc = p, l_request = r, l_trans = tr, l_stock = k, l_amount = a, l_msg = msg, written = w\<rparr>"
    by (cases "threads s ! t")
  show ?thesis
    using assms by (simp add: th run_defs)
qed

lemma status_solo:
  assumes "t < length (threads s)" "alive s" "pc (threads s ! t) = Status_find"
    "stockMap s (l_stock (threads s ! t)) = Some e" "mutex e = None"
  shows "exec N [Run t, Run t, Run t, Run t] s =
     Some (s\<lparr>stockMap := stockMap s, threads := (threads s)[t := (threads s ! t)\<lparr>
              l_msg := fst (status (l_stock (threads s ! t)) (stockMap s)), pc := Respond\<rparr>]\<rparr>)"
proof -
  obtain p r tr k a msg w where th: "threads s ! t = \<lparr>pc = p, l_request = r, l_trans = tr, l_stock = k, l_amount = a, l_msg = msg, written = w\<rparr>"
    by (cases "threads s ! t")
  obtain nm b mx where e: "e = \<lparr>name = nm, balance = b, mutex = mx\<rparr>"
    by (cases e)
  show ?thesis
    using assms by (simp add: th e run_defs lock_def unlock_def subscript_def inserted_def map_upd_triv status_def)
qed

lemma create_solo:
  assumes "t < length (threads s)" "alive s" "pc (threads s ! t) = Create_find"
    "stockMap s (l_stock (threads s ! t)) = None"
  shows "exec N [Run t, Run t, Run t] s =
     Some (s\<lparr>stockMap := snd (create (l_stock (threads s ! t)) (l_amount (threads s ! t)) (stockMap s)),
            threads := (threads s)[t := (threads s ! t)\<lparr>
              l_msg := fst (create (l_stock (threads s ! t)) (l_amount (threads s ! t)) (stockMap s)), pc := Respond\<rparr>]\<rparr>)"
proof -
  obtain p r tr k a msg w where th: "threads s ! t = \<lparr>pc = p, l_request = r, l_trans = tr, l_stock = k, l_amount = a, l_msg = msg, written = w\<rparr>"
    by (cases "threads s ! t")
  show ?thesis
    using assms by (simp add: th run_defs create_def subscript_def)
qed

lemma reset_solo:
  assumes "t < length (threads s)" "alive s" "pc (threads s ! t) = Reset_clear"
  shows "step N (Run t) s =
     Some (s\<lparr>stockMap := snd (reset (stockMap s)),
            threads := (threads s)[t := (threads s ! t)\<lparr>l_msg := fst (reset (stockMap s)), pc := Respond\<rparr>]\<rparr>)"
proof -
  obtain p r tr k a msg w where th: "threads s ! t = \<lparr>pc = p, l_request = r, l_trans = tr, l_stock = k, l_amount = a, l_msg = msg, written = w\<rparr>"
    by (cases "threads s ! t")
  show ?thesis
    using assms by (simp add: th run_defs reset_def)
qed

section \<open>A buy completes only after its predicate held\<close>








section \<open>Properties of the transactions run without interference\<close>

lemma create_keeps: "m stock \<noteq> None \<Longrightarrow> create stock a m = (''Stock '' @ stock @ '' already exists'', m)"
  by (simp add: create_def)

lemma create_present: "snd (create stock a m) stock \<noteq> None"
  by (simp add: create_def Let_def)

text \<open>
  C3. \<open>create\<close> on a name that is not in the table inserts a Stock with that name and
  with the amount as its balance, and answers that the stock was created. On a name that
  is in the table it changes nothing and answers that the stock already exists. So after
  one \<open>create\<close> of a name, every further \<open>create\<close> of it (with any amount, any number
  of times) answers "already exists" and leaves the table, and with it the stored
  balance, as it is.
\<close>

theorem create_spec:
  "(m stock = None \<longrightarrow>
      create stock amount m =
        (''Stock '' @ stock @ '' created with balance = '' @ to_string_nat (unat amount),
         m(stock \<mapsto> \<lparr>name = stock, balance = uint amount, mutex = None\<rparr>)))
   \<and> (m stock \<noteq> None \<longrightarrow> create stock amount m = (''Stock '' @ stock @ '' already exists'', m))
   \<and> (\<forall>a'. create stock a' (snd (create stock amount m)) =
          (''Stock '' @ stock @ '' already exists'', snd (create stock amount m)))
   \<and> fold (\<lambda>a' m'. snd (create stock a' m')) as (snd (create stock amount m)) =
       snd (create stock amount m)"
proof (intro conjI impI allI)
  assume "m stock = None"
  then show "create stock amount m =
        (''Stock '' @ stock @ '' created with balance = '' @ to_string_nat (unat amount),
         m(stock \<mapsto> \<lparr>name = stock, balance = uint amount, mutex = None\<rparr>))"
    by (simp add: create_def Let_def subscript_def Stock0_def)
next
  assume "m stock \<noteq> None"
  then show "create stock amount m = (''Stock '' @ stock @ '' already exists'', m)"
    by (rule create_keeps)
next
  fix a'
  show "create stock a' (snd (create stock amount m)) =
          (''Stock '' @ stock @ '' already exists'', snd (create stock amount m))"
    by (rule create_keeps [OF create_present])
next
  have again: "snd (create stock a' m') = m'" if "m' stock \<noteq> None" for a' m'
    using that by (simp add: create_keeps)
  have "m' stock \<noteq> None \<Longrightarrow> fold (\<lambda>a' m'. snd (create stock a' m')) as m' = m'" for m'
    by (induction as) (simp_all add: again)
  then show "fold (\<lambda>a' m'. snd (create stock a' m')) as (snd (create stock amount m)) =
       snd (create stock amount m)"
    using create_present by blast
qed

theorem create_spec_witness:
  "create ''ACME'' 10 Map.empty =
     (''Stock ACME created with balance = 10'',
      [''ACME'' \<mapsto> \<lparr>name = ''ACME'', balance = 10, mutex = None\<rparr>])
   \<and> fst (create ''ACME'' 10 (snd (create ''ACME'' 10 Map.empty))) = ''Stock ACME already exists''
   \<and> map_option balance (snd (create ''ACME'' 10 (snd (create ''ACME'' 10 Map.empty))) ''ACME'') = Some 10"
proof -
  note th = create_spec [of Map.empty "''ACME''" 10 "[]"]
  have first: "create ''ACME'' 10 Map.empty =
     (''Stock ACME created with balance = 10'',
      [''ACME'' \<mapsto> \<lparr>name = ''ACME'', balance = 10, mutex = None\<rparr>])"
  proof -
    have ten: "to_string_nat 10 = ''10''" by code_simp
    show ?thesis using th by (simp add: ten)
  qed
  have again: "create ''ACME'' 10 (snd (create ''ACME'' 10 Map.empty)) =
     (''Stock ACME already exists'', snd (create ''ACME'' 10 Map.empty))"
  proof -
    from th have "\<forall>a'. create ''ACME'' a' (snd (create ''ACME'' 10 Map.empty)) =
          (''Stock '' @ ''ACME'' @ '' already exists'', snd (create ''ACME'' 10 Map.empty))"
      by blast
    then show ?thesis by simp
  qed
  show ?thesis
    unfolding again unfolding first by simp
qed

text \<open>
  C9. \<open>reset\<close> leaves the table empty, so \<open>status\<close> after it answers "Stock not found"
  for every name, in particular for every name created before.
\<close>

theorem status_after_reset:
  "snd (reset m) = Map.empty \<and> fst (reset m) = ''Stocks reset''
   \<and> status stock (snd (reset m)) = (''Stock not found'', Map.empty)"
  by (simp add: reset_def status_def)

section \<open>Properties of the running server\<close>

lemmas ev = run_defs accept_def wake_def thread0_def server0_def entry_def
  read_trans_def read_stock_def read_amount_def replace_def isspace_def word_at_def
  get_unsigned_def isdigit_def lock_def unlock_def relock_def subscript_def inserted_def Stock0_def
  notify_all_def one_thread_def acme_def acme_server_def acme_schedule_def acme_arrival_def acme_trading_def















text \<open>
  C8. \<open>buy\<close> on a name that is not in the table (never created, or removed by a reset
  that has returned) answers "Stock not found" and leaves the table as it is. In the
  thread this is one step from the lookup, which needs no mutex and no wait, and which
  changes nothing but the thread's own message and program point.
\<close>

theorem buy_absent:
  "(m stock = None \<longrightarrow> buy stock amount m = Some (''Stock not found'', m))
   \<and> buy stock amount Map.empty = Some (''Stock not found'', Map.empty)
   \<and> buy stock amount (snd (reset m)) = Some (''Stock not found'', Map.empty)
   \<and> (t < length (threads s) \<and> alive s \<and> pc (threads s ! t) = Buy_find
       \<and> stockMap s (l_stock (threads s ! t)) = None \<longrightarrow>
         step N (Run t) s =
           Some (s\<lparr>threads := (threads s)[t := (threads s ! t)\<lparr>l_msg := ''Stock not found'', pc := Respond\<rparr>]\<rparr>))"
proof (intro conjI impI)
  assume "m stock = None"
  then show "buy stock amount m = Some (''Stock not found'', m)" by (simp add: buy_def)
next
  show "buy stock amount Map.empty = Some (''Stock not found'', Map.empty)" by (simp add: buy_def)
next
  show "buy stock amount (snd (reset m)) = Some (''Stock not found'', Map.empty)"
    by (simp add: buy_def reset_def)
next
  assume "t < length (threads s) \<and> alive s \<and> pc (threads s ! t) = Buy_find
       \<and> stockMap s (l_stock (threads s ! t)) = None"
  then show "step N (Run t) s =
           Some (s\<lparr>threads := (threads s)[t := (threads s ! t)\<lparr>l_msg := ''Stock not found'', pc := Respond\<rparr>]\<rparr>)"
    by (intro buy_solo_absent) simp_all
qed

theorem buy_absent_witness:
  "buy ''GHOST'' 1 (acme 100 None) = Some (''Stock not found'', acme 100 None)
   \<and> map_option (\<lambda>s. (map pc (threads s), map l_msg (threads s), stockMap s ''GHOST'', stockMap s ''ACME''))
       (step 2 (Run 0) (one_thread Buy_find ''buy'' ''GHOST'' 1 (acme 100 None) [])) =
     Some ([Respond], [''Stock not found''], None, Some \<lparr>name = ''ACME'', balance = 100, mutex = None\<rparr>)"
proof -
  let ?g = "one_thread Buy_find ''buy'' ''GHOST'' 1 (acme 100 None) []"
  note th = buy_absent [where m = "acme 100 None" and stock = "''GHOST''" and amount = 1
      and t = 0 and s = ?g and N = 2]
  from th have c1: "buy ''GHOST'' 1 (acme 100 None) = Some (''Stock not found'', acme 100 None)"
    by (simp add: acme_def)
  from th have "step 2 (Run 0) ?g =
      Some (?g\<lparr>threads := (threads ?g)[0 := (threads ?g ! 0)\<lparr>l_msg := ''Stock not found'', pc := Respond\<rparr>]\<rparr>)"
    by (simp add: one_thread_def acme_def)
  then have "map_option (\<lambda>s. (map pc (threads s), map l_msg (threads s), stockMap s ''GHOST'', stockMap s ''ACME''))
       (step 2 (Run 0) ?g) =
     Some ([Respond], [''Stock not found''], None, Some \<lparr>name = ''ACME'', balance = 100, mutex = None\<rparr>)"
    by (simp add: one_thread_def acme_def)
  with c1 show ?thesis by simp
qed

lemma process_keeps_nonneg:
  assumes "nonneg m" "process transaction stock amount m = Some (msg, m')"
  shows "nonneg m'"
proof -
  have "\<And>k e. m' k = Some e \<Longrightarrow> 0 \<le> balance e"
    using assms
    by (auto simp: process_def reset_def create_def buy_def sell_def status_def nonneg_def
                   subscript_def Stock0_def Let_def split: if_splits)
  then show ?thesis by (auto simp: nonneg_def)
qed

text \<open>
  C10. The tables that the transactions build have no negative balance: the empty table
  has none and no transaction produces one. On such a table, \<open>buy\<close> with amount 0 on a
  stock that is in it answers with the success message and leaves the table as it is. A
  thread that runs it alone goes from the lookup to the end of the locked block in five
  steps, never suspended, and the server differs only in that thread's message and
  program point.
\<close>

theorem buy_zero:
  "nonneg Map.empty
   \<and> (nonneg m \<and> process transaction stock' amount m = Some (msg, m') \<longrightarrow> nonneg m')
   \<and> (nonneg m \<and> m stock = Some e \<longrightarrow> buy stock 0 m = Some (updated stock, m))
   \<and> (t < length (threads s) \<and> alive s \<and> pc (threads s ! t) = Buy_find
       \<and> l_amount (threads s ! t) = 0 \<and> nonneg (stockMap s)
       \<and> stockMap s (l_stock (threads s ! t)) = Some e' \<and> mutex e' = None \<longrightarrow>
         exec N [Run t, Run t, Run t, Run t, Run t] s =
           Some (s\<lparr>threads := (threads s)[t := (threads s ! t)\<lparr>
                     l_msg := updated (l_stock (threads s ! t)), pc := Respond\<rparr>]\<rparr>))"
proof (intro conjI impI)
  show "nonneg Map.empty" by (simp add: nonneg_def)
next
  assume "nonneg m \<and> process transaction stock' amount m = Some (msg, m')"
  then show "nonneg m'" using process_keeps_nonneg by blast
next
  assume "nonneg m \<and> m stock = Some e"
  then show "buy stock 0 m = Some (updated stock, m)"
    by (auto simp: buy_def subscript_def map_upd_triv nonneg_def)
next
  assume a: "t < length (threads s) \<and> alive s \<and> pc (threads s ! t) = Buy_find
       \<and> l_amount (threads s ! t) = 0 \<and> nonneg (stockMap s)
       \<and> stockMap s (l_stock (threads s ! t)) = Some e' \<and> mutex e' = None"
  then have "0 \<le> balance e'" by (auto simp: nonneg_def)
  with a have "exec N [Run t, Run t, Run t, Run t, Run t] s =
     Some (s\<lparr>stockMap := (stockMap s)(l_stock (threads s ! t) \<mapsto>
                 e'\<lparr>balance := balance e' - uint (l_amount (threads s ! t))\<rparr>),
            threads := (threads s)[t := (threads s ! t)\<lparr>
              l_msg := updated (l_stock (threads s ! t)), pc := Respond\<rparr>]\<rparr>)"
    using buy_solo [of t s e' N] by simp
  with a show "exec N [Run t, Run t, Run t, Run t, Run t] s =
           Some (s\<lparr>threads := (threads s)[t := (threads s ! t)\<lparr>
                     l_msg := updated (l_stock (threads s ! t)), pc := Respond\<rparr>]\<rparr>)"
    by (simp add: map_upd_triv)
qed

theorem buy_zero_witness:
  "process ''create'' ''ACME'' 100 Map.empty = Some (''Stock ACME created with balance = 100'', acme 100 None)
   \<and> buy ''ACME'' 0 (acme 100 None) = Some (updated ''ACME'', acme 100 None)
   \<and> map_option (\<lambda>s. (map pc (threads s), map l_msg (threads s), stockMap s ''ACME''))
       (exec 2 [Run 0, Run 0, Run 0, Run 0, Run 0]
          (one_thread Buy_find ''buy'' ''ACME'' 0 (acme 100 None) [])) =
     Some ([Respond], [updated ''ACME''], Some \<lparr>name = ''ACME'', balance = 100, mutex = None\<rparr>)"
proof -
  let ?z = "one_thread Buy_find ''buy'' ''ACME'' 0 (acme 100 None) []"
  let ?e = "\<lparr>name = ''ACME'', balance = 100, mutex = None :: nat option\<rparr>"
  have hundred: "to_string_nat 100 = ''100''" by code_simp
  have made: "process ''create'' ''ACME'' 100 Map.empty =
      Some (''Stock ACME created with balance = 100'', acme 100 None)"
    by (simp add: process_def create_def subscript_def Stock0_def acme_def hundred)
  note th0 = buy_zero [where m = Map.empty and transaction = "''create''" and stock' = "''ACME''"
      and amount = 100 and msg = "''Stock ACME created with balance = 100''" and m' = "acme 100 None"]
  from th0 made have nn: "nonneg (acme 100 None)" by blast
  note th = buy_zero [where m = "acme 100 None" and stock = "''ACME''" and e = ?e
      and t = 0 and s = ?z and e' = ?e and N = 2]
  from th nn have c1: "buy ''ACME'' 0 (acme 100 None) = Some (updated ''ACME'', acme 100 None)"
    by (simp add: acme_def)
  from th nn have "exec 2 [Run 0, Run 0, Run 0, Run 0, Run 0] ?z =
      Some (?z\<lparr>threads := (threads ?z)[0 := (threads ?z ! 0)\<lparr>l_msg := updated (l_stock (threads ?z ! 0)), pc := Respond\<rparr>]\<rparr>)"
    by (simp add: one_thread_def acme_def)
  then have "map_option (\<lambda>s. (map pc (threads s), map l_msg (threads s), stockMap s ''ACME''))
       (exec 2 [Run 0, Run 0, Run 0, Run 0, Run 0] ?z) =
     Some ([Respond], [updated ''ACME''], Some \<lparr>name = ''ACME'', balance = 100, mutex = None\<rparr>)"
    by (simp add: one_thread_def acme_def)
  with made c1 show ?thesis by simp
qed

text \<open>
  C4, as stated, fails: a create request with no amount field is not answered with
  "Invalid request". The amount keeps the 0 it was initialised with and the stock is
  created with balance 0.
\<close>

theorem missing_amount_accepted:
  "clientThread ''trans=create&stock=ACME'' Map.empty =
     Some (HTTPResponse ''Stock ACME created with balance = 0'', acme 0 None)
   \<and> clientThread ''trans=create&stock=ACME'' Map.empty \<noteq> Some (HTTPResponse ''Invalid request'', Map.empty)"
proof -
  have zero: "to_string_nat 0 = ''0''" by code_simp
  have "clientThread ''trans=create&stock=ACME'' Map.empty =
     Some (HTTPResponse ''Stock ACME created with balance = 0'', acme 0 None)"
    by (simp add: clientThread_def process_def create_def read_trans_def read_stock_def read_amount_def
          replace_def isspace_def word_at_def subscript_def Stock0_def acme_def zero)
  moreover have "acme 0 None \<noteq> Map.empty" by (simp add: acme_def)
  ultimately show ?thesis by simp
qed

text \<open>
  C4, amended. A request whose transaction word is none of reset, create, buy, sell and
  status is answered with "Invalid request", and the table is neither read nor changed:
  the thread goes from reading the request straight to the response, and the server
  differs only in that thread's locals (and a woken acceptor). A request with fewer than
  six words has amount 0; it is carried out when its transaction word is known.
\<close>

theorem invalid_request:
  "(read_trans request \<notin> set [''reset'', ''create'', ''buy'', ''sell'', ''status''] \<longrightarrow>
      clientThread request m = Some (HTTPResponse ''Invalid request'', m)
      \<and> (t < length (threads s) \<and> alive s \<and> pc (threads s ! t) = Begin
          \<and> l_request (threads s ! t) = request \<longrightarrow>
            exec N [Run t, Run t, Run t, Run t, Run t] s =
              Some (s\<lparr>acceptor := (if acceptor s = Gate_sleep then Gate else acceptor s),
                     threads := (threads s)[t := (threads s ! t)\<lparr>
                       l_trans := read_trans request, l_stock := read_stock request,
                       l_amount := read_amount request, l_msg := ''Invalid request'',
                       written := HTTPResponse ''Invalid request'', pc := Finished\<rparr>]\<rparr>)))
   \<and> (length (words_of [] (replace CHR ''='' CHR '' '' (replace CHR ''&'' CHR '' '' request))) \<le> 5 \<longrightarrow>
        read_amount request = 0)"
proof (intro conjI impI)
  assume "read_trans request \<notin> set [''reset'', ''create'', ''buy'', ''sell'', ''status'']"
  then show "clientThread request m = Some (HTTPResponse ''Invalid request'', m)"
    by (simp add: clientThread_def process_def)
next
  assume unknown: "read_trans request \<notin> set [''reset'', ''create'', ''buy'', ''sell'', ''status'']"
    and at: "t < length (threads s) \<and> alive s \<and> pc (threads s ! t) = Begin
          \<and> l_request (threads s ! t) = request"
  obtain p r tr k a msg w where th: "threads s ! t = \<lparr>pc = p, l_request = r, l_trans = tr, l_stock = k, l_amount = a, l_msg = msg, written = w\<rparr>"
    by (cases "threads s ! t")
  from unknown at show "exec N [Run t, Run t, Run t, Run t, Run t] s =
              Some (s\<lparr>acceptor := (if acceptor s = Gate_sleep then Gate else acceptor s),
                     threads := (threads s)[t := (threads s ! t)\<lparr>
                       l_trans := read_trans request, l_stock := read_stock request,
                       l_amount := read_amount request, l_msg := ''Invalid request'',
                       written := HTTPResponse ''Invalid request'', pc := Finished\<rparr>]\<rparr>)"
    by (simp add: th run_defs entry_def)
next
  assume "length (words_of [] (replace CHR ''='' CHR '' '' (replace CHR ''&'' CHR '' '' request))) \<le> 5"
  then show "read_amount request = 0" by (simp add: read_amount_def)
qed

theorem invalid_request_witness:
  "clientThread ''trans=delete&stock=ACME&amount=1'' (acme 100 None) =
     Some (HTTPResponse ''Invalid request'', acme 100 None)
   \<and> map_option (\<lambda>s. (map pc (threads s), map written (threads s), stockMap s ''ACME'', threadCount s))
       (exec 2 [Run 0, Run 0, Run 0, Run 0, Run 0]
          ((server0 [])\<lparr>stockMap := acme 100 None, threads := [thread0 ''trans=delete&stock=ACME&amount=1'']\<rparr>)) =
     Some ([Finished], [HTTPResponse ''Invalid request''],
           Some \<lparr>name = ''ACME'', balance = 100, mutex = None\<rparr>, 0)
   \<and> read_amount ''trans=create&stock=ACME'' = 0"
proof -
  let ?r = "''trans=delete&stock=ACME&amount=1''"
  let ?s = "(server0 [])\<lparr>stockMap := acme 100 None, threads := [thread0 ?r]\<rparr>"
  note th = invalid_request [where request = ?r and m = "acme 100 None" and t = 0 and s = ?s and N = 2]
  have unknown: "read_trans ?r \<notin> set [''reset'', ''create'', ''buy'', ''sell'', ''status'']"
    by (simp add: read_trans_def replace_def isspace_def word_at_def)
  from th unknown have c1: "clientThread ?r (acme 100 None) = Some (HTTPResponse ''Invalid request'', acme 100 None)"
    by blast
  have at: "0 < length (threads ?s) \<and> alive ?s \<and> pc (threads ?s ! 0) = Begin \<and> l_request (threads ?s ! 0) = ?r"
    by (simp add: server0_def thread0_def)
  from th unknown at have "exec 2 [Run 0, Run 0, Run 0, Run 0, Run 0] ?s =
              Some (?s\<lparr>acceptor := (if acceptor ?s = Gate_sleep then Gate else acceptor ?s),
                     threads := (threads ?s)[0 := (threads ?s ! 0)\<lparr>
                       l_trans := read_trans ?r, l_stock := read_stock ?r,
                       l_amount := read_amount ?r, l_msg := ''Invalid request'',
                       written := HTTPResponse ''Invalid request'', pc := Finished\<rparr>]\<rparr>)"
    by blast
  then have c2: "map_option (\<lambda>s. (map pc (threads s), map written (threads s), stockMap s ''ACME'', threadCount s))
       (exec 2 [Run 0, Run 0, Run 0, Run 0, Run 0] ?s) =
     Some ([Finished], [HTTPResponse ''Invalid request''],
           Some \<lparr>name = ''ACME'', balance = 100, mutex = None\<rparr>, 0)"
    by (simp add: server0_def thread0_def acme_def)
  have c3: "read_amount ''trans=create&stock=ACME'' = 0"
    using invalid_request [where request = "''trans=create&stock=ACME''"]
    by (simp add: replace_def isspace_def)
  show ?thesis using c1 c2 c3 by simp
qed

lemma gate_below_bound:
  "accept N s = Some s' \<Longrightarrow> acceptor s' = Spawn \<Longrightarrow> acceptor s = Gate \<and> threadCount s < N"
  by (cases "acceptor s") (auto simp: accept_def split: if_splits list.splits)

text \<open>
  C5. The acceptor passes its gate only while \<open>threadCount < maxThreads\<close>
  (\<open>gate_below_bound\<close>). But the count is incremented by the new thread, not by the
  acceptor: with \<open>maxThreads = 1\<close> the acceptor can admit a second connection before the
  first thread has counted itself, and then two threads are inside the transactions with
  \<open>threadCount = 2\<close>.
\<close>

theorem admission_race:
  "map_option (\<lambda>s. (threadCount s, map pc (threads s)))
     (exec 1 [Acceptor, Acceptor, Acceptor, Acceptor, Acceptor, Acceptor, Run 0, Run 1, Run 0, Run 1]
        (server0 [''trans=status&stock=A'', ''trans=status&stock=B''])) =
   Some (2, [Status_find, Status_find])"
  by (simp add: ev)

text \<open>
  C6, as stated, fails: a buy or a sell that has found its stock, and then loses it to a
  reset before it takes the mutex, does not answer "Stock not found". The subscript
  inserts a new entry under the name, the transaction goes through on it, and the table
  that the reset emptied holds a stock again, with an empty \<open>name\<close> member. The two runs
  are a buy of 0 and a sell of 7, each after a create and overtaken by a reset.
\<close>

theorem reset_during_buy:
  "map_option (\<lambda>s. (map pc (threads s), map l_msg (threads s), map_option name (stockMap s ''A'')))
     (exec 3 [Acceptor, Acceptor, Acceptor, Acceptor, Acceptor, Acceptor, Acceptor, Acceptor, Acceptor,
              Run 0, Run 0, Run 0, Run 0, Run 0, Run 0, Run 0, Run 0,
              Run 1, Run 1, Run 1,
              Run 2, Run 2, Run 2, Run 2, Run 2, Run 2,
              Run 1, Run 1, Run 1, Run 1, Run 1, Run 1, Run 1]
        (server0 [''trans=create&stock=A&amount=5'', ''trans=buy&stock=A&amount=0'', ''trans=reset''])) =
   Some ([Finished, Finished, Finished],
         [''Stock A created with balance = 5'', updated ''A'', ''Stocks reset''], Some [])
   \<and> map_option (\<lambda>s. (map pc (threads s), map l_msg (threads s), map_option name (stockMap s ''A'')))
     (exec 3 [Acceptor, Acceptor, Acceptor, Acceptor, Acceptor, Acceptor, Acceptor, Acceptor, Acceptor,
              Run 0, Run 0, Run 0, Run 0, Run 0, Run 0, Run 0, Run 0,
              Run 1, Run 1, Run 1,
              Run 2, Run 2, Run 2, Run 2, Run 2, Run 2,
              Run 1, Run 1, Run 1, Run 1, Run 1, Run 1, Run 1]
        (server0 [''trans=create&stock=A&amount=5'', ''trans=sell&stock=A&amount=7'', ''trans=reset''])) =
   Some ([Finished, Finished, Finished],
         [''Stock A created with balance = 5'', updated ''A'', ''Stocks reset''], Some [])"
proof -
  have five: "to_string_nat 5 = ''5''" by code_simp
  show ?thesis by (simp add: ev five)
qed

text \<open>
  A buy suspended in the wait fares worse: woken after a reset, its predicate calls
  \<open>at\<close> on the missing key, and the exception ends the process.
\<close>

lemma reset_during_wait:
  "map_option (\<lambda>s. (map pc (threads s), alive s))
     (exec 3 [Acceptor, Acceptor, Acceptor, Acceptor, Acceptor, Acceptor, Acceptor, Acceptor, Acceptor,
              Run 0, Run 0, Run 0, Run 0, Run 0, Run 0, Run 0, Run 0,
              Run 1, Run 1, Run 1, Run 1, Run 1,
              Run 2, Run 2, Run 2, Run 2, Run 2, Run 2,
              Wake 1, Run 1, Run 1]
        (server0 [''trans=create&stock=A&amount=5'', ''trans=buy&stock=A&amount=7'', ''trans=reset''])) =
   Some ([Finished, Terminated, Finished], False)"
  by (simp add: ev)

text \<open>
  C6, amended. \<open>reset\<close> empties the table in one statement. A buy or a sell that
  starts its lookup on the emptied table answers "Stock not found" and changes nothing,
  in the function and in the thread.
\<close>

theorem after_reset_not_found:
  "snd (reset m) = Map.empty \<and> fst (reset m) = ''Stocks reset''
   \<and> buy stock amount (snd (reset m)) = Some (''Stock not found'', Map.empty)
   \<and> sell stock amount (snd (reset m)) = (''Stock not found'', Map.empty)
   \<and> (t < length (threads s) \<and> alive s \<and> pc (threads s ! t) = Reset_clear \<longrightarrow>
        step N (Run t) s =
          Some (s\<lparr>stockMap := Map.empty,
                 threads := (threads s)[t := (threads s ! t)\<lparr>l_msg := ''Stocks reset'', pc := Respond\<rparr>]\<rparr>))
   \<and> (t < length (threads s) \<and> alive s \<and> stockMap s = Map.empty
       \<and> (pc (threads s ! t) = Buy_find \<or> pc (threads s ! t) = Sell_find) \<longrightarrow>
        step N (Run t) s =
          Some (s\<lparr>threads := (threads s)[t := (threads s ! t)\<lparr>l_msg := ''Stock not found'', pc := Respond\<rparr>]\<rparr>))"
proof (intro conjI impI)
  show "snd (reset m) = Map.empty" and "fst (reset m) = ''Stocks reset''"
    and "buy stock amount (snd (reset m)) = Some (''Stock not found'', Map.empty)"
    and "sell stock amount (snd (reset m)) = (''Stock not found'', Map.empty)"
    by (simp_all add: reset_def buy_def sell_def)
next
  assume "t < length (threads s) \<and> alive s \<and> pc (threads s ! t) = Reset_clear"
  then show "step N (Run t) s =
          Some (s\<lparr>stockMap := Map.empty,
                 threads := (threads s)[t := (threads s ! t)\<lparr>l_msg := ''Stocks reset'', pc := Respond\<rparr>]\<rparr>)"
    using reset_solo [of t s N] by (simp add: reset_def)
next
  assume a: "t < length (threads s) \<and> alive s \<and> stockMap s = Map.empty
       \<and> (pc (threads s ! t) = Buy_find \<or> pc (threads s ! t) = Sell_find)"
  then show "step N (Run t) s =
          Some (s\<lparr>threads := (threads s)[t := (threads s ! t)\<lparr>l_msg := ''Stock not found'', pc := Respond\<rparr>]\<rparr>)"
    using buy_solo_absent [of t s N] sell_solo_absent [of t s N] by auto
qed

theorem after_reset_not_found_witness:
  "map_option (\<lambda>s. (map pc (threads s), map l_msg (threads s), stockMap s ''ACME''))
     (step 2 (Run 0) (one_thread Reset_clear ''reset'' [] 0 (acme 100 None) [])) =
     Some ([Respond], [''Stocks reset''], None)
   \<and> map_option (\<lambda>s. (map pc (threads s), map l_msg (threads s), stockMap s ''ACME''))
       (step 2 (Run 0) (one_thread Buy_find ''buy'' ''ACME'' 1 Map.empty [])) =
     Some ([Respond], [''Stock not found''], None)
   \<and> buy ''ACME'' 1 (snd (reset (acme 100 None))) = Some (''Stock not found'', Map.empty)"
proof -
  let ?r = "one_thread Reset_clear ''reset'' [] 0 (acme 100 None) []"
  let ?b = "one_thread Buy_find ''buy'' ''ACME'' 1 Map.empty []"
  note th1 = after_reset_not_found [where m = "acme 100 None" and stock = "''ACME''" and amount = 1
      and t = 0 and s = ?r and N = 2]
  note th2 = after_reset_not_found [where t = 0 and s = ?b and N = 2]
  from th1 have "step 2 (Run 0) ?r =
      Some (?r\<lparr>stockMap := Map.empty,
              threads := (threads ?r)[0 := (threads ?r ! 0)\<lparr>l_msg := ''Stocks reset'', pc := Respond\<rparr>]\<rparr>)"
    by (simp add: one_thread_def)
  then have c1: "map_option (\<lambda>s. (map pc (threads s), map l_msg (threads s), stockMap s ''ACME''))
     (step 2 (Run 0) ?r) = Some ([Respond], [''Stocks reset''], None)"
    by (simp add: one_thread_def)
  from th2 have "step 2 (Run 0) ?b =
      Some (?b\<lparr>threads := (threads ?b)[0 := (threads ?b ! 0)\<lparr>l_msg := ''Stock not found'', pc := Respond\<rparr>]\<rparr>)"
    by (simp add: one_thread_def)
  then have c2: "map_option (\<lambda>s. (map pc (threads s), map l_msg (threads s), stockMap s ''ACME''))
       (step 2 (Run 0) ?b) = Some ([Respond], [''Stock not found''], None)"
    by (simp add: one_thread_def)
  from th1 have c3: "buy ''ACME'' 1 (snd (reset (acme 100 None))) = Some (''Stock not found'', Map.empty)"
    by blast
  show ?thesis using c1 c2 c3 by simp
qed

end
